theory Spec2Isabelle
  imports Complex_Main "HOL-Library.Log_Nat"
begin

section \<open>Moves and squares (the part of python-chess that \<open>my_bot.py\<close> uses)\<close>

text \<open>
  \<open>my_bot.py\<close> handles \<open>chess.Move\<close> values: an origin square, a destination square and
  an optional promotion piece. python-chess numbers the squares 0..63, file first
  (\<open>a1 = 0\<close>, \<open>h1 = 7\<close>, \<open>a8 = 56\<close>), and \<open>chess.square_name\<close> indexes the table
  \<open>SQUARE_NAMES\<close>; an index past the table raises \<open>IndexError\<close>, modelled as \<open>None\<close>.
\<close>

datatype piece_type = PAWN | KNIGHT | BISHOP | ROOK | QUEEN | KING

record move =
  from_square :: nat
  to_square :: nat
  promotion :: "piece_type option"

definition FILE_NAMES :: string where
  "FILE_NAMES = ''abcdefgh''"

definition RANK_NAMES :: string where
  "RANK_NAMES = ''12345678''"

definition square_name :: "nat \<Rightarrow> string option" where
  "square_name sq =
     (if sq < 64 then Some [FILE_NAMES ! (sq mod 8), RANK_NAMES ! (sq div 8)] else None)"

fun piece_symbol :: "piece_type \<Rightarrow> string" where
  "piece_symbol PAWN = ''p''"
| "piece_symbol KNIGHT = ''n''"
| "piece_symbol BISHOP = ''b''"
| "piece_symbol ROOK = ''r''"
| "piece_symbol QUEEN = ''q''"
| "piece_symbol KING = ''k''"

text \<open>
  \<open>bool(move)\<close>: python-chess makes the null move (\<open>a1a1\<close> without promotion) falsy, and
  \<open>calculate_best_move\<close> and \<open>play_game_loop\<close> test moves for truth.
\<close>

definition move_truthy :: "move \<Rightarrow> bool" where
  "move_truthy m = (from_square m \<noteq> 0 \<or> to_square m \<noteq> 0 \<or> promotion m \<noteq> None)"

text \<open>
  \<open>str(move)\<close>, the UCI notation written to the \<open>'move'\<close> field of a log entry. For a
  move with a square past 63 python-chess raises here as in \<open>square_name\<close>;
  \<open>execute_move\<close> has returned \<open>False\<close> before it gets that far, so the last case below
  is never evaluated by the bot.
\<close>

definition uci :: "move \<Rightarrow> string" where
  "uci m =
     (case (square_name (from_square m), square_name (to_square m)) of
        (Some f, Some t) \<Rightarrow>
          (case promotion m of
             Some p \<Rightarrow> f @ t @ piece_symbol p
           | None \<Rightarrow> if move_truthy m then f @ t else ''0000'')
      | _ \<Rightarrow> ''0000'')"

section \<open>UI Locator: the geometric fallback\<close>

text \<open>
  The numbers of a \<open>rect\<close> are Python numbers: an \<open>int\<close> when the browser reports a whole
  number of pixels, a \<open>float\<close> (an IEEE-754 double) otherwise. \<open>Dyadic m e\<close> is the number
  \<open>m * 2^e\<close>: the integer \<open>n\<close> is \<open>Dyadic n 0\<close>, and a finite double is \<open>Dyadic m e\<close> with
  \<open>\<bar>m\<bar> < 2^53\<close> and \<open>e \<ge> -1074\<close>.
\<close>

datatype pynum = Dyadic (mantissa: int) (exponent: int)

definition value_of :: "pynum \<Rightarrow> rat" where
  "value_of x =
     (if 0 \<le> exponent x then of_int (mantissa x) * 2 ^ nat (exponent x)
      else of_int (mantissa x) / 2 ^ nat (- exponent x))"

text \<open>A rational cut towards zero to an integer, for stating what \<open>int(x)\<close> returns.\<close>

definition truncate_rat :: "rat \<Rightarrow> int" where
  "truncate_rat x = (if 0 \<le> x then \<lfloor>x\<rfloor> else \<lceil>x\<rceil>)"

text \<open>\<open>m / 2^s\<close> rounded to the nearest integer, a tie going to the even one.\<close>

definition round_half_even :: "int \<Rightarrow> nat \<Rightarrow> int" where
  "round_half_even m s =
     (let q = m div 2 ^ s; r = m mod 2 ^ s; half = 2 ^ (s - 1)
      in if r < half then q
         else if half < r then q + 1
         else if even q then q else q + 1)"

text \<open>
  The double nearest to the exact number \<open>m * 2^e\<close>, as every float operation of the
  hardware returns it: the mantissa is cut to 53 bits (fewer below \<open>2^-1022\<close>, where the
  exponent stays at \<open>-1074\<close>) with round-half-even. \<open>None\<close> stands for a result that is not
  finite (\<open>2^1024\<close> or more): Python's \<open>int\<close> raises on it, and so does the division of an
  \<open>int\<close> too large for a float.
\<close>

definition to_double :: "int \<Rightarrow> int \<Rightarrow> pynum option" where
  "to_double m e =
     (let s = max (bitlen \<bar>m\<bar> - 53) (- 1074 - e);
          m' = (if s \<le> 0 then m else round_half_even m (nat s));
          e' = (if s \<le> 0 then e else e + s)
      in if bitlen \<bar>m'\<bar> + e' > 1024 then None else Some (Dyadic m' e'))"

text \<open>
  The three operations of \<open>get_square_center_coordinates\<close>: \<open>x / 2^k\<close> (the source
  divides by 8 and by 2), \<open>n * x\<close> for an \<open>int\<close> \<open>n\<close> (a small one, which converts to a
  float exactly) and \<open>x + y\<close>. Each is the exact result, rounded once.
\<close>

definition truediv_pow2 :: "pynum \<Rightarrow> nat \<Rightarrow> pynum option" where
  "truediv_pow2 x k = to_double (mantissa x) (exponent x - int k)"

definition int_times :: "int \<Rightarrow> pynum \<Rightarrow> pynum option" where
  "int_times n x = to_double (n * mantissa x) (exponent x)"

definition float_add :: "pynum \<Rightarrow> pynum \<Rightarrow> pynum option" where
  "float_add x y =
     (let e = min (exponent x) (exponent y)
      in to_double (mantissa x * 2 ^ nat (exponent x - e) + mantissa y * 2 ^ nat (exponent y - e)) e)"

text \<open>
  A \<open>WebElement\<close> is known to the bot only through its \<open>rect\<close>: the pair (width, height),
  or \<open>None\<close> when reading it raises (a stale element).
\<close>

datatype web_element = WebElement (rect: "(pynum \<times> pynum) option")

record square_info =
  element :: web_element
  file_index :: int
  rank_index :: int
  square :: string

text \<open>Python's \<open>int(c)\<close> on a one-character string: a decimal digit, else \<open>ValueError\<close>.\<close>

definition int_of_char :: "char \<Rightarrow> int option" where
  "int_of_char c =
     (let n = (of_char c :: nat)
      in if 48 \<le> n \<and> n \<le> 57 then Some (int n - 48) else None)"

text \<open>
  \<open>find_square_by_position\<close>. The first argument is what
  \<open>driver.find_element(By.TAG_NAME, "wc-chess-board")\<close> answers: the element, or \<open>None\<close>
  when it raises \<open>NoSuchElementException\<close>. Every exception of the body ends in
  \<open>return None\<close>; that covers a square name shorter than two characters and a rank
  character that is no digit.
\<close>

definition find_square_by_position :: "web_element option \<Rightarrow> string \<Rightarrow> square_info option" where
  "find_square_by_position found sq =
     (case found of
        None \<Rightarrow> None
      | Some board_element \<Rightarrow>
          (case sq of
             file_char # rank_char # _ \<Rightarrow>
               (case int_of_char rank_char of
                  None \<Rightarrow> None
                | Some d \<Rightarrow>
                    Some \<lparr>element = board_element,
                          file_index = int (of_char file_char) - 97,
                          rank_index = d - 1,
                          square = sq\<rparr>)
           | _ \<Rightarrow> None))"

text \<open>Python's \<open>int(x)\<close> on a finite float: truncation towards zero.\<close>

definition py_int :: "pynum \<Rightarrow> int" where
  "py_int x =
     (if 0 \<le> exponent x then mantissa x * 2 ^ nat (exponent x)
      else if 0 \<le> mantissa x then mantissa x div 2 ^ nat (- exponent x)
      else - ((- mantissa x) div 2 ^ nat (- exponent x)))"

text \<open>
  \<open>get_square_center_coordinates\<close>: the board's \<open>rect\<close> is divided into an 8 by 8 grid,
  rank 1 at the bottom, in float arithmetic. An exception gives \<open>(0, 0)\<close>: the \<open>rect\<close>
  cannot be read, or a number that is not finite reaches \<open>int\<close>.
\<close>

definition get_square_center_coordinates :: "square_info \<Rightarrow> int \<times> int" where
  "get_square_center_coordinates si =
     (case rect (element si) of
        None \<Rightarrow> (0, 0)
      | Some (board_width, board_height) \<Rightarrow>
          (case (truediv_pow2 board_width 3, truediv_pow2 board_height 3) of
             (Some square_width, Some square_height) \<Rightarrow>
               (let x_offset =
                      Option.bind (int_times (file_index si) square_width) (\<lambda>a.
                      Option.bind (truediv_pow2 square_width 1) (\<lambda>b. float_add a b));
                    y_offset =
                      Option.bind (int_times (7 - rank_index si) square_height) (\<lambda>a.
                      Option.bind (truediv_pow2 square_height 1) (\<lambda>b. float_add a b))
                in case (x_offset, y_offset) of
                     (Some x, Some y) \<Rightarrow> (py_int x, py_int y)
                   | _ \<Rightarrow> (0, 0))
           | _ \<Rightarrow> (0, 0)))"

section \<open>Move Execution Subsystem\<close>

text \<open>
  What a strategy sends to the browser, in the order of the calls. A strategy returns its
  verdict together with the commands it issued; a command whose call raised is listed too,
  since the call was made.
\<close>

datatype ui_command =
    ScrollIntoView
  | MoveToElementWithOffset int int
  | ClickAndHold
  | Pause
  | Release
  | ExecuteScript string string
  | Click
  | SendKeys string
  | SendEnter

text \<open>
  The browser's answers during one call of \<open>execute_move\<close>: the two lookups of the board
  by the drag-and-drop strategy, whether \<open>scrollIntoView\<close> and the drag's \<open>perform()\<close>
  return, what the injected script returns (\<open>None\<close>: \<open>execute_script\<close> raised, otherwise
  the truth value of the result), the lookup of the board by the keyboard strategy,
  whether \<open>board.click()\<close> and the keystrokes' \<open>perform()\<close> return, and the clock read for
  the log entry.
\<close>

record driver =
  from_lookup :: "web_element option"
  to_lookup :: "web_element option"
  scroll_ok :: bool
  drag_ok :: bool
  script_result :: "bool option"
  keyboard_lookup :: "web_element option"
  click_ok :: bool
  keys_ok :: bool
  now :: string

definition execute_move_with_drag_drop :: "driver \<Rightarrow> move \<Rightarrow> bool \<times> ui_command list" where
  "execute_move_with_drag_drop d m =
     (case (square_name (from_square m), square_name (to_square m)) of
        (Some from_sq, Some to_sq) \<Rightarrow>
          (case (find_square_by_position (from_lookup d) from_sq,
                 find_square_by_position (to_lookup d) to_sq) of
             (Some from_square_info, Some to_square_info) \<Rightarrow>
               (let (from_x, from_y) = get_square_center_coordinates from_square_info;
                    (to_x, to_y) = get_square_center_coordinates to_square_info;
                    actions = [MoveToElementWithOffset from_x from_y, ClickAndHold, Pause,
                               MoveToElementWithOffset to_x to_y, Pause, Release]
                in if from_x = 0 \<or> to_x = 0 then (False, [])
                   else if \<not> scroll_ok d then (False, [ScrollIntoView])
                   else if \<not> drag_ok d then (False, ScrollIntoView # actions)
                   else (True, ScrollIntoView # actions))
           | _ \<Rightarrow> (False, []))
      | _ \<Rightarrow> (False, []))"

text \<open>
  \<open>execute_move_with_javascript\<close>: the script text is a template with two holes, the
  names of the origin and the destination square; \<open>ExecuteScript f t\<close> stands for the
  template filled with \<open>f\<close> and \<open>t\<close>. What the script does inside the page is the page's
  business; the bot sees the returned value.
\<close>

definition execute_move_with_javascript :: "driver \<Rightarrow> move \<Rightarrow> bool \<times> ui_command list" where
  "execute_move_with_javascript d m =
     (case (square_name (from_square m), square_name (to_square m)) of
        (Some from_sq, Some to_sq) \<Rightarrow>
          (case script_result d of
             Some True \<Rightarrow> (True, [ExecuteScript from_sq to_sq])
           | _ \<Rightarrow> (False, [ExecuteScript from_sq to_sq]))
      | _ \<Rightarrow> (False, []))"

definition execute_move_with_keyboard :: "driver \<Rightarrow> move \<Rightarrow> bool \<times> ui_command list" where
  "execute_move_with_keyboard d m =
     (case (square_name (from_square m), square_name (to_square m)) of
        (Some from_sq, Some to_sq) \<Rightarrow>
          (case keyboard_lookup d of
             None \<Rightarrow> (False, [])
           | Some board \<Rightarrow>
               if \<not> click_ok d then (False, [Click])
               else (let move_notation = from_sq @ to_sq
                     in (keys_ok d, [Click, SendKeys move_notation, SendEnter])))
      | _ \<Rightarrow> (False, []))"

text \<open>
  A record of \<open>self.move_log\<close>: the dictionary with the keys \<open>'timestamp'\<close>, \<open>'move'\<close>,
  \<open>'from'\<close>, \<open>'to'\<close> and \<open>'method'\<close>.
\<close>

record move_entry =
  entry_timestamp :: string
  entry_move :: string
  entry_from :: string
  entry_to :: string
  entry_method :: string

text \<open>The two attributes of the bot that \<open>execute_move\<close> reads and writes.\<close>

record bot =
  log_moves :: bool
  move_log :: "move_entry list"

text \<open>
  What one call of \<open>execute_move\<close> leaves behind: the returned truth value, the move log
  afterwards, and two observations that the source does not store, the names of the
  strategies that were invoked and the commands that went to the browser, both in order.
\<close>

record attempt =
  success :: bool
  log_after :: "move_entry list"
  tried :: "string list"
  sent :: "ui_command list"

text \<open>
  The \<open>for method_name, method_func in methods\<close> loop of \<open>execute_move\<close>. The three
  strategies catch every exception themselves, so the loop's own
  \<open>except Exception: continue\<close> has nothing left to catch.
\<close>

fun try_methods ::
  "bool \<Rightarrow> string \<Rightarrow> string \<Rightarrow> string \<Rightarrow> move \<Rightarrow>
   (string \<times> (move \<Rightarrow> bool \<times> ui_command list)) list \<Rightarrow> move_entry list \<Rightarrow> attempt" where
  "try_methods logging ts from_sq to_sq m [] log0 =
     \<lparr>success = False, log_after = log0, tried = [], sent = []\<rparr>"
| "try_methods logging ts from_sq to_sq m ((method_name, method_func) # methods) log0 =
     (let (done, cmds) = method_func m
      in if done then
           \<lparr>success = True,
            log_after =
              (if logging then
                 log0 @ [\<lparr>entry_timestamp = ts, entry_move = uci m, entry_from = from_sq,
                          entry_to = to_sq, entry_method = method_name\<rparr>]
               else log0),
            tried = [method_name],
            sent = cmds\<rparr>
         else
           (let r = try_methods logging ts from_sq to_sq m methods log0
            in r\<lparr>tried := method_name # tried r, sent := cmds @ sent r\<rparr>))"

definition execute_move :: "bot \<Rightarrow> driver \<Rightarrow> move \<Rightarrow> attempt" where
  "execute_move self d m =
     (case (square_name (from_square m), square_name (to_square m)) of
        (Some from_sq, Some to_sq) \<Rightarrow>
          try_methods (log_moves self) (now d) from_sq to_sq m
            [(''drag_drop'', execute_move_with_drag_drop d),
             (''javascript'', execute_move_with_javascript d),
             (''keyboard'', execute_move_with_keyboard d)]
            (move_log self)
      | _ \<Rightarrow> \<lparr>success = False, log_after = move_log self, tried = [], sent = []\<rparr>)"

text \<open>
  \<open>save_move_log\<close> and the part of \<open>cleanup\<close> that calls it. The result is the content of
  the JSON file, or \<open>None\<close> when no file is written: the log is empty, or writing raised
  (\<open>io_ok\<close> is false). \<open>cleanup\<close> reaches the call only when closing the engine and the
  browser did not raise (\<open>quit_ok\<close>) and \<open>log_moves\<close> is set.
\<close>

definition save_move_log :: "bool \<Rightarrow> move_entry list \<Rightarrow> move_entry list option" where
  "save_move_log io_ok entries =
     (if entries \<noteq> [] then (if io_ok then Some entries else None) else None)"

definition cleanup :: "bool \<Rightarrow> bool \<Rightarrow> bot \<Rightarrow> move_entry list option" where
  "cleanup quit_ok io_ok self =
     (if quit_ok then
        (if log_moves self then save_move_log io_ok (move_log self) else None)
      else None)"

section \<open>Engine Advisor\<close>

text \<open>
  The internal board is a \<open>chess.Board()\<close> that only ever receives \<open>push\<close>: it is
  determined by its move stack, the list of moves pushed onto the starting position.
  \<open>push\<close> appends. The rules of chess (\<open>is_game_over\<close>, \<open>result\<close>) belong to python-chess
  and are parameters of the model.
\<close>

type_synonym board = "move list"

definition push :: "board \<Rightarrow> move \<Rightarrow> board" where
  "push b m = b @ [m]"

text \<open>
  What \<open>self.engine.play(board, limit)\<close> does: it returns a \<open>PlayResult\<close> whose \<open>move\<close> may
  be \<open>None\<close>, or it raises (the process died, the protocol broke).
\<close>

datatype engine_reply = PlayResult "move option" | EngineRaised string

datatype log_level = DEBUG | INFO | WARNING | ERROR

text \<open>
  The result of \<open>calculate_best_move\<close>: the returned value, the one record it writes to
  the logger, and whether the engine was asked at all.
\<close>

record advice =
  advised :: "move option"
  logged :: "log_level \<times> string"
  engine_asked :: bool

definition calculate_best_move :: "(board \<Rightarrow> bool) \<Rightarrow> (board \<Rightarrow> engine_reply) \<Rightarrow> board \<Rightarrow> advice" where
  "calculate_best_move game_over play b =
     (if game_over b then
        \<lparr>advised = None, logged = (INFO, ''Game is over, no moves to calculate''),
         engine_asked = False\<rparr>
      else
        (case play b of
           PlayResult (Some m) \<Rightarrow>
             if move_truthy m then
               \<lparr>advised = Some m, logged = (INFO, ''Calculated best move: '' @ uci m),
                engine_asked = True\<rparr>
             else
               \<lparr>advised = None, logged = (WARNING, ''Engine returned no move''),
                engine_asked = True\<rparr>
         | PlayResult None \<Rightarrow>
             \<lparr>advised = None, logged = (WARNING, ''Engine returned no move''),
              engine_asked = True\<rparr>
         | EngineRaised e \<Rightarrow>
             \<lparr>advised = None, logged = (ERROR, ''Move calculation failed: '' @ e),
              engine_asked = True\<rparr>))"

section \<open>Game Loop Controller\<close>

text \<open>
  Everything outside the bot during a run. \<open>is_game_over\<close> and \<open>game_result\<close> are
  python-chess on the internal board. The engine's answer to its \<open>k\<close>-th request and the
  browser's answers during the \<open>k\<close>-th iteration are free: the engine may answer the same
  position differently each time. \<open>board_check\<close> says whether the first statement of the
  \<open>k\<close>-th iteration's \<open>try\<close> body, \<open>current_board.is_game_over()\<close>, returns or is cut
  short by an exception or by the operator's Ctrl-C; every later statement of the body
  is taken to return (the engine and the strategies catch their own exceptions).
\<close>

datatype exn = KeyboardInterrupt | OtherException

record world =
  is_game_over :: "board \<Rightarrow> bool"
  game_result :: "board \<Rightarrow> string"
  engine_play :: "nat \<Rightarrow> board \<Rightarrow> engine_reply"
  browser :: "nat \<Rightarrow> driver"
  board_check :: "nat \<Rightarrow> exn option"

text \<open>
  The local variables of \<open>play_game_loop\<close> and the bot, with two counters that the source
  does not keep: the iterations started and the requests made to the engine.
\<close>

record game =
  moves_played :: int
  consecutive_failures :: int
  current_board :: board
  the_bot :: bot
  iteration :: nat
  engine_calls :: nat

text \<open>
  The ways out of the \<open>while\<close> loop: the \<open>break\<close> after the game-over report with the
  reported outcome, the \<open>break\<close> after "Too many move execution failures", the \<open>break\<close>
  of the \<open>except Exception\<close> handler, the \<open>break\<close> of the \<open>except KeyboardInterrupt\<close>
  handler, and the loop condition \<open>moves_played < max_moves\<close> turning false.
\<close>

datatype outcome = WhiteWins | BlackWins | Draw | OtherResult string

datatype loop_exit =
    GameOver outcome
  | TooManyFailures
  | TooManyErrors
  | Interrupted
  | MoveLimit

datatype step = Continue (state_of: game) | Break (exit_of: loop_exit) (state_of: game)

definition max_failures :: int where
  "max_failures = 3"

definition classify :: "string \<Rightarrow> outcome" where
  "classify r =
     (if r = ''1-0'' then WhiteWins
      else if r = ''0-1'' then BlackWins
      else if r = ''1/2-1/2'' then Draw
      else OtherResult r)"

text \<open>
  One pass through the body of the \<open>while\<close> loop, from a state that satisfies the loop
  condition. The sleeps and the logger calls are left out; they change nothing the loop
  reads.
\<close>

definition loop_body :: "world \<Rightarrow> game \<Rightarrow> step" where
  "loop_body w s =
     (let s0 = s\<lparr>iteration := Suc (iteration s)\<rparr>
      in case board_check w (iteration s) of
           Some KeyboardInterrupt \<Rightarrow> Break Interrupted s0
         | Some OtherException \<Rightarrow>
             (let s1 = s0\<lparr>consecutive_failures := consecutive_failures s0 + 1\<rparr>
              in if consecutive_failures s1 \<ge> max_failures then Break TooManyErrors s1
                 else Continue s1)
         | None \<Rightarrow>
             if is_game_over w (current_board s0) then
               Break (GameOver (classify (game_result w (current_board s0)))) s0
             else
               (let s1 = s0\<lparr>consecutive_failures := 0\<rparr>;
                    a = calculate_best_move (is_game_over w) (engine_play w (engine_calls s1))
                          (current_board s1);
                    s2 = (if engine_asked a then s1\<lparr>engine_calls := Suc (engine_calls s1)\<rparr>
                          else s1)
                in case advised a of
                     None \<Rightarrow> Continue s2
                   | Some best_move \<Rightarrow>
                       (let r = execute_move (the_bot s2) (browser w (iteration s)) best_move;
                            s3 = s2\<lparr>the_bot := (the_bot s2)\<lparr>move_log := log_after r\<rparr>\<rparr>
                        in if success r then
                             Continue (s3\<lparr>moves_played := moves_played s3 + 1,
                                          current_board := push (current_board s3) best_move\<rparr>)
                           else
                             (let s4 = s3\<lparr>consecutive_failures := consecutive_failures s3 + 1\<rparr>
                              in if consecutive_failures s4 \<ge> max_failures
                                 then Break TooManyFailures s4
                                 else Continue s4))))"

text \<open>
  The \<open>while\<close> loop, with fuel: the first argument bounds the number of iterations, and
  \<open>None\<close> says that the loop was still running when the fuel ran out.
\<close>

fun while_loop :: "nat \<Rightarrow> world \<Rightarrow> int \<Rightarrow> game \<Rightarrow> (loop_exit \<times> game) option" where
  "while_loop 0 w max_moves s =
     (if moves_played s < max_moves then None else Some (MoveLimit, s))"
| "while_loop (Suc fuel) w max_moves s =
     (if moves_played s < max_moves then
        (case loop_body w s of
           Break e s' \<Rightarrow> Some (e, s')
         | Continue s' \<Rightarrow> while_loop fuel w max_moves s')
      else Some (MoveLimit, s))"

definition initial_game :: "bot \<Rightarrow> game" where
  "initial_game self =
     \<lparr>moves_played = 0, consecutive_failures = 0, current_board = [], the_bot = self,
      iteration = 0, engine_calls = 0\<rparr>"

definition play_game_loop :: "nat \<Rightarrow> world \<Rightarrow> bot \<Rightarrow> int \<Rightarrow> (loop_exit \<times> game) option" where
  "play_game_loop fuel w self max_moves = while_loop fuel w max_moves (initial_game self)"

section \<open>Sample inputs\<close>

text \<open>The move \<open>e2e4\<close>, and a bot with and without move logging.\<close>

definition e2e4 :: move where
  "e2e4 = \<lparr>from_square = 12, to_square = 28, promotion = None\<rparr>"

definition bot0 :: bot where
  "bot0 = \<lparr>log_moves = True, move_log = []\<rparr>"

definition quiet_bot :: bot where
  "quiet_bot = \<lparr>log_moves = False, move_log = []\<rparr>"

text \<open>
  Three browsers: one on which every call returns, showing a board of 800 by 800
  pixels; the same with a drag whose \<open>perform()\<close> raises; and one without any board, on
  which the script returns false.
\<close>

definition board800 :: web_element where
  "board800 = WebElement (Some (Dyadic 800 0, Dyadic 800 0))"

definition working_browser :: driver where
  "working_browser =
     \<lparr>from_lookup = Some board800, to_lookup = Some board800, scroll_ok = True,
      drag_ok = True, script_result = Some True, keyboard_lookup = Some board800,
      click_ok = True, keys_ok = True, now = ''2024-01-01T00:00:00''\<rparr>"

definition jammed_browser :: driver where
  "jammed_browser = working_browser\<lparr>drag_ok := False\<rparr>"

definition dead_browser :: driver where
  "dead_browser =
     \<lparr>from_lookup = None, to_lookup = None, scroll_ok = False, drag_ok = False,
      script_result = Some False, keyboard_lookup = None, click_ok = False, keys_ok = False,
      now = ''2024-01-01T00:00:00''\<rparr>"

text \<open>The double nearest to 323.2, a width that a browser reports for a scaled board.\<close>

definition width_323_2 :: pynum where
  "width_323_2 = Dyadic 5685794529555251 (- 44)"

text \<open>
  A world in which the game never ends, the engine always answers \<open>e2e4\<close> and every
  execution fails; and one in which the engine never has a move.
\<close>

definition failing_world :: world where
  "failing_world =
     \<lparr>is_game_over = (\<lambda>b. False), game_result = (\<lambda>b. ''*''),
      engine_play = (\<lambda>k b. PlayResult (Some e2e4)),
      browser = (\<lambda>k. dead_browser), board_check = (\<lambda>k. None)\<rparr>"

definition mute_world :: world where
  "mute_world = failing_world\<lparr>engine_play := (\<lambda>k b. PlayResult None)\<rparr>"

text \<open>
  Fool's mate (\<open>f2f3 e7e5 g2g4 d8h4\<close>) on a working browser: the engine plays the four
  moves, after which the board reports the game over with the result \<open>0-1\<close>.
\<close>

definition fools_mate :: board where
  "fools_mate =
     [\<lparr>from_square = 13, to_square = 21, promotion = None\<rparr>,
      \<lparr>from_square = 52, to_square = 36, promotion = None\<rparr>,
      \<lparr>from_square = 14, to_square = 30, promotion = None\<rparr>,
      \<lparr>from_square = 59, to_square = 31, promotion = None\<rparr>]"

definition fools_mate_world :: world where
  "fools_mate_world =
     \<lparr>is_game_over = (\<lambda>b. b = fools_mate),
      game_result = (\<lambda>b. if b = fools_mate then ''0-1'' else ''*''),
      engine_play = (\<lambda>k b. if length b < 4 then PlayResult (Some (fools_mate ! length b))
                             else PlayResult None),
      browser = (\<lambda>k. working_browser), board_check = (\<lambda>k. None)\<rparr>"

text \<open>
  The state in which the loop finds itself after the four moves of fool's mate, and the
  state in which it then leaves the loop.
\<close>

definition mated_game :: game where
  "mated_game =
     \<lparr>moves_played = 4, consecutive_failures = 0, current_board = fools_mate,
      the_bot = bot0, iteration = 4, engine_calls = 4\<rparr>"

definition fools_mate_final :: game where
  "fools_mate_final =
     \<lparr>moves_played = 4, consecutive_failures = 0, current_board = fools_mate,
      the_bot =
        \<lparr>log_moves = True,
         move_log =
           [\<lparr>entry_timestamp = ''2024-01-01T00:00:00'', entry_move = ''f2f3'',
             entry_from = ''f2'', entry_to = ''f3'', entry_method = ''drag_drop''\<rparr>,
            \<lparr>entry_timestamp = ''2024-01-01T00:00:00'', entry_move = ''e7e5'',
             entry_from = ''e7'', entry_to = ''e5'', entry_method = ''drag_drop''\<rparr>,
            \<lparr>entry_timestamp = ''2024-01-01T00:00:00'', entry_move = ''g2g4'',
             entry_from = ''g2'', entry_to = ''g4'', entry_method = ''drag_drop''\<rparr>,
            \<lparr>entry_timestamp = ''2024-01-01T00:00:00'', entry_move = ''d8h4'',
             entry_from = ''d8'', entry_to = ''h4'', entry_method = ''drag_drop''\<rparr>]\<rparr>,
      iteration = 5, engine_calls = 4\<rparr>"

section \<open>Legal positions\<close>

text \<open>
  A position of the internal board is legal when it is reached from the starting position
  by moves each of which was legal in the position it was played in. Which moves are
  legal in a position is python-chess's \<open>board.is_legal(move)\<close>, the parameter \<open>legal\<close>.
\<close>

definition legal_game :: "(board \<Rightarrow> move \<Rightarrow> bool) \<Rightarrow> board \<Rightarrow> bool" where
  "legal_game legal b = list_all (\<lambda>i. legal (take i b) (b ! i)) [0..<length b]"

text \<open>A toy rule book for the sample run: only the next move of fool's mate is legal.\<close>

definition fools_mate_rules :: "board \<Rightarrow> move \<Rightarrow> bool" where
  "fools_mate_rules b m = (length b < 4 \<and> m = fools_mate ! length b)"

section \<open>The geometric fallback computes truncated centres\<close>

lemma to_double_exact:
  assumes "\<bar>m\<bar> < 2 ^ 53" and "- 1074 \<le> e" and "e \<le> 971"
  shows "to_double m e = Some (Dyadic m e)"
proof -
  from assms(1) have "bitlen \<bar>m\<bar> \<le> 53"
    by (simp add: bitlen_le_iff_power)
  with assms(2,3) show ?thesis
    by (simp add: to_double_def Let_def max_def)
qed

lemma value_of_powi: "value_of x = of_int (mantissa x) * 2 powi exponent x"
proof (cases "0 \<le> exponent x")
  case True
  then show ?thesis by (simp add: value_of_def power_int_def)
next
  case False
  have "(2::rat) powi (- (- exponent x)) = inverse (2 powi (- exponent x))"
    by (rule power_int_minus)
  moreover have "(2::rat) powi (- exponent x) = 2 ^ nat (- exponent x)"
    using False by (simp add: power_int_def)
  ultimately have "(2::rat) powi exponent x = inverse (2 ^ nat (- exponent x))"
    by simp
  with False show ?thesis
    by (simp only: value_of_def if_False divide_inverse)
qed

lemma truncate_rat_fraction:
  assumes "0 \<le> k" and "0 < l"
  shows "truncate_rat (of_int k / of_int l) = k div l"
proof -
  from assms have "(0::rat) \<le> of_int k / of_int l" by simp
  then show ?thesis
    unfolding truncate_rat_def by (simp only: if_True floor_divide_of_int_eq)
qed

lemma py_int_value: "py_int x = truncate_rat (value_of x)"
proof (cases "0 \<le> exponent x")
  case True
  have "value_of x = of_int (mantissa x * 2 ^ nat (exponent x))"
    using True by (simp add: value_of_def)
  moreover have "truncate_rat (of_int (mantissa x * 2 ^ nat (exponent x))) = mantissa x * 2 ^ nat (exponent x)"
    unfolding truncate_rat_def by (simp only: floor_of_int ceiling_of_int if_cancel)
  ultimately show ?thesis using True by (simp add: py_int_def)
next
  case False
  define k where "k = nat (- exponent x)"
  have v: "value_of x = of_int (mantissa x) / of_int (2 ^ k)"
    using False by (simp add: value_of_def k_def)
  have p: "(0::rat) < of_int (2 ^ k)" by simp
  show ?thesis
  proof (cases "0 \<le> mantissa x")
    case True
    then have "0 \<le> value_of x" unfolding v by (intro divide_nonneg_pos p) simp
    then have "truncate_rat (value_of x) = mantissa x div 2 ^ k"
      unfolding truncate_rat_def v by (simp only: if_True floor_divide_of_int_eq)
    then show ?thesis using True False by (simp add: py_int_def k_def)
  next
    case neg: False
    then have "value_of x < 0" unfolding v by (intro divide_neg_pos p) simp
    then have "truncate_rat (value_of x) = \<lceil>of_int (mantissa x) / (of_int (2 ^ k) :: rat)\<rceil>"
      unfolding truncate_rat_def v by simp
    also have "\<dots> = - \<lfloor>of_int (- mantissa x) / (of_int (2 ^ k) :: rat)\<rfloor>"
      by (simp add: ceiling_def)
    also have "\<dots> = - ((- mantissa x) div 2 ^ k)"
      by (simp only: floor_divide_of_int_eq)
    finally show ?thesis using neg False by (simp add: py_int_def k_def)
  qed
qed

lemma value_of_sixteenth:
  "value_of (Dyadic m (e - 4)) = value_of (Dyadic m e) / 16"
  by (simp add: value_of_powi power_int_diff)

lemma value_of_fifteen_sixteenths:
  "value_of (Dyadic (15 * m) (e - 4)) = value_of (Dyadic m e) * 15 / 16"
  by (simp add: value_of_powi power_int_diff)

lemma center_dyadic:
  assumes "0 \<le> m" "m < 2 ^ 49" "- 1070 \<le> e" "e \<le> 970"
      and "0 \<le> n" "n < 2 ^ 49" "- 1070 \<le> d" "d \<le> 970"
      and "0 \<le> f" "f \<le> 7" "0 \<le> r" "r \<le> 7"
  shows "get_square_center_coordinates
       \<lparr>element = WebElement (Some (Dyadic m e, Dyadic n d)), file_index = f, rank_index = r, square = sq\<rparr>
     = (py_int (Dyadic ((2 * f + 1) * m) (e - 4)), py_int (Dyadic ((15 - 2 * r) * n) (d - 4)))"
proof -
  define a where "a = f * m"
  define b where "b = (7 - r) * n"
  have wn: "m < 562949953421312" and hn: "n < 562949953421312"
    using assms(2,6) by simp_all
  have a0: "0 \<le> a" and b0: "0 \<le> b"
    using assms by (simp_all add: a_def b_def)
  have a7: "a \<le> 7 * m" unfolding a_def using assms by (intro mult_right_mono) auto
  have b7: "b \<le> 7 * n" unfolding b_def using assms by (intro mult_right_mono) auto
  have small: "\<bar>m\<bar> < 2 ^ 53" "\<bar>n\<bar> < 2 ^ 53" "\<bar>a\<bar> < 2 ^ 53" "\<bar>b\<bar> < 2 ^ 53"
    "\<bar>a * 2 + m\<bar> < 2 ^ 53" "\<bar>b * 2 + n\<bar> < 2 ^ 53"
    using assms(1,5) wn hn a0 b0 a7 b7 by simp_all
  have ex: "- 1074 \<le> e - 3" "e - 3 \<le> 971" "- 1074 \<le> e - 4" "e - 4 \<le> 971"
           "- 1074 \<le> d - 3" "d - 3 \<le> 971" "- 1074 \<le> d - 4" "d - 4 \<le> 971"
    using assms(3,4,7,8) by simp_all
  have w8: "to_double m (e - 3) = Some (Dyadic m (e - 3))"
    and h8: "to_double n (d - 3) = Some (Dyadic n (d - 3))"
    and w16: "to_double m (e - 4) = Some (Dyadic m (e - 4))"
    and h16: "to_double n (d - 4) = Some (Dyadic n (d - 4))"
    and fw: "to_double a (e - 3) = Some (Dyadic a (e - 3))"
    and rh: "to_double b (d - 3) = Some (Dyadic b (d - 3))"
    and sx: "to_double (a * 2 + m) (e - 4) = Some (Dyadic (a * 2 + m) (e - 4))"
    and sy: "to_double (b * 2 + n) (d - 4) = Some (Dyadic (b * 2 + n) (d - 4))"
    using small ex by (simp_all add: to_double_exact)
  have x: "a * 2 + m = (2 * f + 1) * m" by (simp add: a_def algebra_simps)
  have y: "b * 2 + n = (15 - 2 * r) * n" by (simp add: b_def algebra_simps)
  have "get_square_center_coordinates
       \<lparr>element = WebElement (Some (Dyadic m e, Dyadic n d)), file_index = f, rank_index = r, square = sq\<rparr>
     = (py_int (Dyadic (a * 2 + m) (e - 4)), py_int (Dyadic (b * 2 + n) (d - 4)))"
    using w8 h8 w16 h16 fw rh sx sy
    by (simp add: get_square_center_coordinates_def truediv_pow2_def int_times_def
        float_add_def Let_def a_def[symmetric] b_def[symmetric])
  then show ?thesis by (simp only: x y)
qed

lemma center_a1_100:
  "get_square_center_coordinates
     \<lparr>element = WebElement (Some (Dyadic 100 0, Dyadic 100 0)), file_index = 0,
      rank_index = 0, square = ''a1''\<rparr> = (6, 93)"
  by code_simp

text \<open>
  C7, as stated, fails: on a board of 100 by 100 pixels the centre of \<open>a1\<close> is computed
  as \<open>x = 6\<close>, not as \<open>100/16 = 6.25\<close>; the function ends in \<open>int(x_offset)\<close>.
\<close>

theorem center_not_exact_counterexample:
  "rat_of_int (fst (get_square_center_coordinates
       \<lparr>element = WebElement (Some (Dyadic 100 0, Dyadic 100 0)), file_index = 0,
        rank_index = 0, square = ''a1''\<rparr>)) \<noteq> value_of (Dyadic 100 0) / 16"
  by (simp add: center_a1_100 value_of_def)

text \<open>
  C7, amended: let the width \<open>W\<close> and the height \<open>H\<close> of the board be numbers that the
  float arithmetic handles without rounding: whole numbers of pixels below \<open>2^49\<close>, or
  binary fractions with a mantissa below \<open>2^49\<close> (642.5, say). Then the geometric fallback
  returns \<open>(W/16, H*15/16)\<close> for square (file 0, rank 0) and \<open>(W*15/16, H/16)\<close> for square
  (file 7, rank 7), each truncated towards zero to an integer. For other sizes the
  product and the sum are rounded to doubles before the truncation: at the width 323.2
  the \<open>x\<close> of file 7 is 303, although fifteen sixteenths of that double lie below 303.
\<close>

theorem center_corners_truncated:
  assumes "0 \<le> mantissa W" "mantissa W < 2 ^ 49" "- 1070 \<le> exponent W" "exponent W \<le> 970"
      and "0 \<le> mantissa H" "mantissa H < 2 ^ 49" "- 1070 \<le> exponent H" "exponent H \<le> 970"
  shows "get_square_center_coordinates
           \<lparr>element = WebElement (Some (W, H)), file_index = 0, rank_index = 0, square = sq\<rparr>
         = (truncate_rat (value_of W / 16), truncate_rat (value_of H * 15 / 16))
       \<and> get_square_center_coordinates
           \<lparr>element = WebElement (Some (W, H)), file_index = 7, rank_index = 7, square = sq\<rparr>
         = (truncate_rat (value_of W * 15 / 16), truncate_rat (value_of H / 16))
       \<and> get_square_center_coordinates
           \<lparr>element = WebElement (Some (width_323_2, width_323_2)), file_index = 7,
            rank_index = 0, square = ''h1''\<rparr>
         = (303, 303)
       \<and> value_of width_323_2 * 15 / 16 < 303"
proof -
  obtain m e where W: "W = Dyadic m e" by (cases W)
  obtain n d where H: "H = Dyadic n d" by (cases H)
  from assms have b: "0 \<le> m" "m < 2 ^ 49" "- 1070 \<le> e" "e \<le> 970"
      "0 \<le> n" "n < 2 ^ 49" "- 1070 \<le> d" "d \<le> 970"
    by (simp_all add: W H)
  have "get_square_center_coordinates
           \<lparr>element = WebElement (Some (W, H)), file_index = 0, rank_index = 0, square = sq\<rparr>
         = (py_int (Dyadic m (e - 4)), py_int (Dyadic (15 * n) (d - 4)))"
    using center_dyadic[OF b, of 0 0 sq] by (simp add: W H)
  moreover have "py_int (Dyadic m (e - 4)) = truncate_rat (value_of W / 16)"
    by (simp only: py_int_value value_of_sixteenth W)
  moreover have "py_int (Dyadic (15 * n) (d - 4)) = truncate_rat (value_of H * 15 / 16)"
    by (simp only: py_int_value value_of_fifteen_sixteenths H)
  ultimately have 1: "get_square_center_coordinates
           \<lparr>element = WebElement (Some (W, H)), file_index = 0, rank_index = 0, square = sq\<rparr>
         = (truncate_rat (value_of W / 16), truncate_rat (value_of H * 15 / 16))"
    by (simp only:)
  have "get_square_center_coordinates
           \<lparr>element = WebElement (Some (W, H)), file_index = 7, rank_index = 7, square = sq\<rparr>
         = (py_int (Dyadic (15 * m) (e - 4)), py_int (Dyadic n (d - 4)))"
    using center_dyadic[OF b, of 7 7 sq] by (simp add: W H)
  moreover have "py_int (Dyadic (15 * m) (e - 4)) = truncate_rat (value_of W * 15 / 16)"
    by (simp only: py_int_value value_of_fifteen_sixteenths W)
  moreover have "py_int (Dyadic n (d - 4)) = truncate_rat (value_of H / 16)"
    by (simp only: py_int_value value_of_sixteenth H)
  ultimately have 2: "get_square_center_coordinates
           \<lparr>element = WebElement (Some (W, H)), file_index = 7, rank_index = 7, square = sq\<rparr>
         = (truncate_rat (value_of W * 15 / 16), truncate_rat (value_of H / 16))"
    by (simp only:)
  have 3: "get_square_center_coordinates
           \<lparr>element = WebElement (Some (width_323_2, width_323_2)), file_index = 7,
            rank_index = 0, square = ''h1''\<rparr>
         = (303, 303)"
    by code_simp
  have 4: "value_of width_323_2 * 15 / 16 < 303"
    by (simp add: value_of_def width_323_2_def)
  from 1 2 3 4 show ?thesis by blast
qed

theorem center_corners_truncated_witness:
  "get_square_center_coordinates
     \<lparr>element = board800, file_index = 0, rank_index = 0, square = ''a1''\<rparr> = (50, 750)
   \<and> get_square_center_coordinates
     \<lparr>element = board800, file_index = 7, rank_index = 7, square = ''h8''\<rparr> = (750, 50)
   \<and> get_square_center_coordinates
     \<lparr>element = WebElement (Some (Dyadic 1285 (- 1), Dyadic 100 0)), file_index = 0,
      rank_index = 0, square = ''a1''\<rparr> = (40, 93)"
proof -
  have v: "truncate_rat (value_of (Dyadic 800 0) / 16) = 50"
    "truncate_rat (value_of (Dyadic 800 0) * 15 / 16) = 750"
    "truncate_rat (value_of (Dyadic 1285 (- 1)) / 16) = 40"
    "truncate_rat (value_of (Dyadic 100 0) * 15 / 16) = 93"
    using truncate_rat_fraction[of 800 16] truncate_rat_fraction[of 12000 16]
      truncate_rat_fraction[of 1285 32] truncate_rat_fraction[of 1500 16]
    by (simp_all add: value_of_def)
  from center_corners_truncated[of "Dyadic 800 0" "Dyadic 800 0" "''a1''"]
       center_corners_truncated[of "Dyadic 800 0" "Dyadic 800 0" "''h8''"]
       center_corners_truncated[of "Dyadic 1285 (- 1)" "Dyadic 100 0" "''a1''"]
  show ?thesis by (simp add: v board800_def)
qed

section \<open>No strategy reads the promotion piece\<close>

text \<open>
  C10: whatever promotion piece a move carries, each of the three strategies returns the
  same verdict and sends the same commands to the browser as for the move with any
  other promotion piece, or none; so do the commands of a whole \<open>execute_move\<close> call.
  The promotion piece never reaches the board.
\<close>

theorem promotion_never_transmitted:
  "execute_move_with_drag_drop d (m\<lparr>promotion := p\<rparr>) = execute_move_with_drag_drop d m
   \<and> execute_move_with_javascript d (m\<lparr>promotion := p\<rparr>) = execute_move_with_javascript d m
   \<and> execute_move_with_keyboard d (m\<lparr>promotion := p\<rparr>) = execute_move_with_keyboard d m
   \<and> sent (execute_move self d (m\<lparr>promotion := p\<rparr>)) = sent (execute_move self d m)"
proof -
  have dd: "execute_move_with_drag_drop d (m\<lparr>promotion := p\<rparr>) = execute_move_with_drag_drop d m"
    by (simp add: execute_move_with_drag_drop_def)
  have js: "execute_move_with_javascript d (m\<lparr>promotion := p\<rparr>) = execute_move_with_javascript d m"
    by (simp add: execute_move_with_javascript_def)
  have kb: "execute_move_with_keyboard d (m\<lparr>promotion := p\<rparr>) = execute_move_with_keyboard d m"
    by (simp add: execute_move_with_keyboard_def)
  have "sent (execute_move self d (m\<lparr>promotion := p\<rparr>)) = sent (execute_move self d m)"
    by (simp add: execute_move_def dd js kb Let_def split: option.splits prod.splits)
  with dd js kb show ?thesis by blast
qed

section \<open>Execution failures never stop the loop\<close>

lemma move_truthy_e2e4: "move_truthy e2e4"
  by (simp add: e2e4_def move_truthy_def)

lemma execute_move_dead_browser:
  "execute_move self dead_browser e2e4 =
     \<lparr>success = False, log_after = move_log self,
      tried = [''drag_drop'', ''javascript'', ''keyboard''],
      sent = [ExecuteScript ''e2'' ''e4'']\<rparr>"
  by (simp add: execute_move_def e2e4_def dead_browser_def square_name_def FILE_NAMES_def
      RANK_NAMES_def execute_move_with_drag_drop_def execute_move_with_javascript_def
      execute_move_with_keyboard_def find_square_by_position_def)

lemma loop_body_failing_world:
  "loop_body failing_world s =
     Continue (s\<lparr>iteration := Suc (iteration s), consecutive_failures := 1,
                 engine_calls := Suc (engine_calls s)\<rparr>)"
  by (simp add: loop_body_def failing_world_def calculate_best_move_def Let_def
      execute_move_dead_browser max_failures_def move_truthy_e2e4)

lemma loop_body_mute_world:
  "loop_body mute_world s =
     Continue (s\<lparr>iteration := Suc (iteration s), consecutive_failures := 0,
                 engine_calls := Suc (engine_calls s)\<rparr>)"
  by (simp add: loop_body_def mute_world_def failing_world_def calculate_best_move_def Let_def)

lemma while_loop_failing_world:
  "moves_played s < max_moves \<Longrightarrow> while_loop fuel failing_world max_moves s = None"
  by (induction fuel arbitrary: s) (simp_all add: loop_body_failing_world)

lemma while_loop_mute_world:
  "moves_played s < max_moves \<Longrightarrow> while_loop fuel mute_world max_moves s = None"
  by (induction fuel arbitrary: s) (simp_all add: loop_body_mute_world)

text \<open>
  C1 is not what the code does. With an engine that always has a move and an execution
  that always fails, one pass through the loop body ends with the consecutive-failure
  counter at 1 and the loop continuing, whatever the counter was before (2, say): the
  body sets the counter to 0 before every attempt. In no world and from no state does the
  body leave through the "Too many move execution failures" \<open>break\<close>.
\<close>

theorem execution_failures_never_abort:
  "loop_body failing_world s =
     Continue (s\<lparr>iteration := Suc (iteration s), consecutive_failures := 1,
                 engine_calls := Suc (engine_calls s)\<rparr>)
   \<and> loop_body w s \<noteq> Break TooManyFailures s'"
proof -
  have "loop_body w s \<noteq> Break TooManyFailures s'"
    by (auto simp add: loop_body_def Let_def max_failures_def
        split: option.splits exn.splits if_splits)
  then show ?thesis by (simp add: loop_body_failing_world)
qed

text \<open>
  C2 is not what the code does. With the default ceiling of 100 moves the loop is still
  running after any number of iterations when every execution fails, and also when the
  engine never returns a move.
\<close>

theorem play_game_loop_runs_forever:
  "play_game_loop fuel failing_world self 100 = None
   \<and> play_game_loop fuel mute_world self 100 = None"
  by (simp add: play_game_loop_def initial_game_def while_loop_failing_world
      while_loop_mute_world)

section \<open>The strategy chain\<close>

lemma try_methods_step:
  "try_methods lg ts f t m ((n, func) # ms) log0 =
     (if fst (func m) then
        \<lparr>success = True,
         log_after = (if lg then log0 @ [\<lparr>entry_timestamp = ts, entry_move = uci m,
                        entry_from = f, entry_to = t, entry_method = n\<rparr>] else log0),
         tried = [n], sent = snd (func m)\<rparr>
      else (try_methods lg ts f t m ms log0)
             \<lparr>tried := n # tried (try_methods lg ts f t m ms log0),
              sent := snd (func m) @ sent (try_methods lg ts f t m ms log0)\<rparr>)"
  by (simp add: Let_def split: prod.splits)

lemma try_methods_tried:
  "success (try_methods lg ts f t m ms log0) \<Longrightarrow> tried (try_methods lg ts f t m ms log0) \<noteq> []"
  by (cases ms) (auto simp: Let_def split: prod.splits if_splits)

lemma try_methods_log:
  "log_after (try_methods lg ts f t m ms log0) =
     (if success (try_methods lg ts f t m ms log0) \<and> lg
      then log0 @ [\<lparr>entry_timestamp = ts, entry_move = uci m, entry_from = f, entry_to = t,
                    entry_method = last (tried (try_methods lg ts f t m ms log0))\<rparr>]
      else log0)"
proof (induction ms)
  case Nil
  then show ?case by simp
next
  case (Cons a ms)
  obtain n func where a: "a = (n, func)" by (cases a)
  show ?case
    unfolding a try_methods_step using Cons.IH try_methods_tried[of lg ts f t m ms log0]
    by auto
qed

lemma try_methods_winner:
  "success (try_methods lg ts f t m ms log0) \<Longrightarrow>
   last (tried (try_methods lg ts f t m ms log0)) \<in> fst ` set ms"
proof (induction ms)
  case Nil
  then show ?case by simp
next
  case (Cons a ms)
  obtain n func where a: "a = (n, func)" by (cases a)
  show ?case
  proof (cases "fst (func m)")
    case True
    then show ?thesis unfolding a try_methods_step by simp
  next
    case False
    with Cons.prems have s: "success (try_methods lg ts f t m ms log0)"
      unfolding a try_methods_step by simp
    with Cons.IH[OF s] try_methods_tried[OF s] False show ?thesis
      unfolding a try_methods_step by simp
  qed
qed

lemma strategies_need_squares:
  "square_name (from_square m) = None \<or> square_name (to_square m) = None \<Longrightarrow>
   execute_move_with_drag_drop d m = (False, []) \<and>
   execute_move_with_javascript d m = (False, []) \<and>
   execute_move_with_keyboard d m = (False, [])"
  by (auto simp: execute_move_with_drag_drop_def execute_move_with_javascript_def
      execute_move_with_keyboard_def split: option.splits)

text \<open>
  C4, as stated, fails in its last part: when the drag's \<open>perform()\<close> raises, the
  drag-and-drop strategy has already sent its scroll and its pointer sequence, reports
  failure, and the JavaScript strategy then sends its script; both strategies have acted
  on the page in one call.
\<close>

theorem two_strategies_act_counterexample:
  "snd (execute_move_with_drag_drop jammed_browser e2e4) \<noteq> []
   \<and> snd (execute_move_with_javascript jammed_browser e2e4) \<noteq> []
   \<and> sent (execute_move bot0 jammed_browser e2e4) =
       snd (execute_move_with_drag_drop jammed_browser e2e4)
       @ snd (execute_move_with_javascript jammed_browser e2e4)"
  by code_simp

text \<open>
  C4, amended: \<open>execute_move\<close> invokes its strategies in the fixed order drag-drop,
  JavaScript, keyboard and stops at the first that reports success. It therefore never
  invokes a lower-priority strategy after a success, at most one strategy reports success
  per call (the last one invoked), and the call succeeds exactly when one of them does.
  The commands sent to the browser are those of every strategy invoked, in order: a
  strategy that reported failure may have acted before it failed.
\<close>

theorem execute_move_priority_order:
  "tried (execute_move self d m) =
     (if square_name (from_square m) = None \<or> square_name (to_square m) = None then []
      else if fst (execute_move_with_drag_drop d m) then [''drag_drop'']
      else if fst (execute_move_with_javascript d m) then [''drag_drop'', ''javascript'']
      else [''drag_drop'', ''javascript'', ''keyboard''])
   \<and> success (execute_move self d m) =
     (fst (execute_move_with_drag_drop d m) \<or> fst (execute_move_with_javascript d m)
      \<or> fst (execute_move_with_keyboard d m))
   \<and> sent (execute_move self d m) =
     (if fst (execute_move_with_drag_drop d m) then snd (execute_move_with_drag_drop d m)
      else if fst (execute_move_with_javascript d m)
        then snd (execute_move_with_drag_drop d m) @ snd (execute_move_with_javascript d m)
      else snd (execute_move_with_drag_drop d m) @ snd (execute_move_with_javascript d m)
           @ snd (execute_move_with_keyboard d m))"
proof (cases "square_name (from_square m) = None \<or> square_name (to_square m) = None")
  case True
  from strategies_need_squares[OF True, of d] True show ?thesis
    by (auto simp: execute_move_def split: option.splits)
next
  case False
  then obtain f t where
    "square_name (from_square m) = Some f" "square_name (to_square m) = Some t"
    by auto
  then show ?thesis
    by (simp add: execute_move_def Let_def split: prod.splits)
qed

section \<open>The engine's two ways of having no move\<close>

text \<open>
  C8, as stated, fails in its second half: with the game not over, an engine that
  reports no move and an engine whose communication fails give \<open>calculate_best_move\<close>
  the same return value.
\<close>

theorem engine_failure_not_distinct_counterexample:
  "advised (calculate_best_move (\<lambda>b. False) (\<lambda>b. PlayResult None) []) =
   advised (calculate_best_move (\<lambda>b. False) (\<lambda>b. EngineRaised ''broken pipe'') [])"
  by (simp add: calculate_best_move_def)

text \<open>
  C8, amended: \<open>calculate_best_move\<close> returns \<open>None\<close> both when the engine reports no
  move and when the communication with it fails. The two cases differ only in the record
  written to the logger (a warning, an error); the caller receives the same value and the
  game loop does the same in both.
\<close>

theorem engine_failure_returns_none:
  "advised (calculate_best_move game_over (\<lambda>b. PlayResult None) b) = None
   \<and> advised (calculate_best_move game_over (\<lambda>b. EngineRaised e) b) = None
   \<and> logged (calculate_best_move (\<lambda>b. False) (\<lambda>b. PlayResult None) b) =
       (WARNING, ''Engine returned no move'')
   \<and> logged (calculate_best_move (\<lambda>b. False) (\<lambda>b. EngineRaised e) b) =
       (ERROR, ''Move calculation failed: '' @ e)
   \<and> loop_body (w\<lparr>engine_play := (\<lambda>k b. PlayResult None)\<rparr>) s =
     loop_body (w\<lparr>engine_play := (\<lambda>k b. EngineRaised e)\<rparr>) s"
proof -
  have "loop_body (w\<lparr>engine_play := (\<lambda>k b. PlayResult None)\<rparr>) s =
     loop_body (w\<lparr>engine_play := (\<lambda>k b. EngineRaised e)\<rparr>) s"
    by (simp add: calculate_best_move_def loop_body_def Let_def
        split: option.splits exn.splits)
  then show ?thesis by (simp add: calculate_best_move_def)
qed

section \<open>The game loop and the internal board\<close>

lemma loop_body_board:
  "current_board (state_of (loop_body w s)) = current_board s \<or>
   (\<exists>m. board_check w (iteration s) = None \<and> \<not> is_game_over w (current_board s) \<and>
        advised (calculate_best_move (is_game_over w) (engine_play w (engine_calls s))
                   (current_board s)) = Some m \<and>
        success (execute_move (the_bot s) (browser w (iteration s)) m) \<and>
        current_board (state_of (loop_body w s)) = push (current_board s) m)"
  by (auto simp: loop_body_def Let_def split: option.splits exn.splits)

lemma advised_from_engine:
  "advised (calculate_best_move go play b) = Some m \<Longrightarrow> play b = PlayResult (Some m)"
  by (auto simp: calculate_best_move_def split: if_splits engine_reply.splits option.splits)

lemma advised_failing_world:
  "advised (calculate_best_move (is_game_over failing_world)
      (engine_play failing_world (engine_calls (initial_game bot0)))
      (current_board (initial_game bot0))) = Some e2e4"
  by (simp add: failing_world_def calculate_best_move_def move_truthy_e2e4)

lemma browser_failing_world: "browser failing_world k = dead_browser"
  by (simp add: failing_world_def)

text \<open>
  C9: when an iteration of the game loop finds the board reporting the game over, the
  loop ends in that iteration, with white wins for the result \<open>1-0\<close>, black wins for
  \<open>0-1\<close>, a draw for \<open>1/2-1/2\<close> and the bare result otherwise, and the state, the number
  of requests made to the engine included, is as it was; \<open>calculate_best_move\<close> itself
  does not ask the engine about a position that is over.
\<close>

theorem terminal_without_engine_request:
  assumes "is_game_over w (current_board s)"
      and "board_check w (iteration s) = None"
      and "moves_played s < max_moves"
  shows "while_loop (Suc fuel) w max_moves s =
           Some (GameOver
                   (if game_result w (current_board s) = ''1-0'' then WhiteWins
                    else if game_result w (current_board s) = ''0-1'' then BlackWins
                    else if game_result w (current_board s) = ''1/2-1/2'' then Draw
                    else OtherResult (game_result w (current_board s))),
                 s\<lparr>iteration := Suc (iteration s)\<rparr>)
         \<and> \<not> engine_asked (calculate_best_move (is_game_over w) play (current_board s))"
  using assms by (simp add: loop_body_def Let_def calculate_best_move_def classify_def)

theorem terminal_without_engine_request_witness:
  "while_loop (Suc 0) fools_mate_world 100 mated_game =
     Some (GameOver BlackWins, mated_game\<lparr>iteration := 5\<rparr>)
   \<and> while_loop (Suc 0) (fools_mate_world\<lparr>game_result := (\<lambda>b. ''1-0'')\<rparr>) 100 mated_game =
     Some (GameOver WhiteWins, mated_game\<lparr>iteration := 5\<rparr>)
   \<and> while_loop (Suc 0) (fools_mate_world\<lparr>game_result := (\<lambda>b. ''1/2-1/2'')\<rparr>) 100 mated_game =
     Some (GameOver Draw, mated_game\<lparr>iteration := 5\<rparr>)
   \<and> while_loop (Suc 0) (fools_mate_world\<lparr>game_result := (\<lambda>b. ''*'')\<rparr>) 100 mated_game =
     Some (GameOver (OtherResult ''*''), mated_game\<lparr>iteration := 5\<rparr>)
   \<and> engine_calls (mated_game\<lparr>iteration := 5\<rparr>) = engine_calls mated_game"
proof -
  have 1: "is_game_over (fools_mate_world\<lparr>game_result := r\<rparr>) (current_board mated_game)" for r
    by (simp add: fools_mate_world_def mated_game_def)
  have 2: "board_check (fools_mate_world\<lparr>game_result := r\<rparr>) (iteration mated_game) = None" for r
    by (simp add: fools_mate_world_def)
  have 3: "moves_played mated_game < 100"
    by (simp add: mated_game_def)
  have 4: "fools_mate_world\<lparr>game_result := game_result fools_mate_world\<rparr> = fools_mate_world"
    by simp
  have 5: "game_result fools_mate_world (current_board mated_game) = ''0-1''"
    by (simp add: fools_mate_world_def mated_game_def)
  have 6: "Suc (iteration mated_game) = 5"
    by (simp add: mated_game_def)
  from terminal_without_engine_request[OF 1[of "game_result fools_mate_world"] 2[of "game_result fools_mate_world"] 3, of 0
         "engine_play fools_mate_world 4"]
       terminal_without_engine_request[OF 1[of "\<lambda>b. ''1-0''"] 2[of "\<lambda>b. ''1-0''"] 3, of 0
         "engine_play fools_mate_world 4"]
       terminal_without_engine_request[OF 1[of "\<lambda>b. ''1/2-1/2''"] 2[of "\<lambda>b. ''1/2-1/2''"] 3, of 0
         "engine_play fools_mate_world 4"]
       terminal_without_engine_request[OF 1[of "\<lambda>b. ''*''"] 2[of "\<lambda>b. ''*''"] 3, of 0
         "engine_play fools_mate_world 4"]
  show ?thesis by (simp add: 4 5 6)
qed

text \<open>
  C5: in one iteration of the game loop, if the move obtained from the engine is executed
  and the execution reports failure, the internal board is the same afterwards; and if the
  internal board is different afterwards, then the game was not over, the engine gave a
  move, its execution reported success, and the board is the old one with that move
  pushed.
\<close>

theorem board_changes_only_on_success:
  "(\<forall>m. advised (calculate_best_move (is_game_over w) (engine_play w (engine_calls s))
                   (current_board s)) = Some m
        \<and> \<not> success (execute_move (the_bot s) (browser w (iteration s)) m)
        \<longrightarrow> current_board (state_of (loop_body w s)) = current_board s)
   \<and> (current_board (state_of (loop_body w s)) \<noteq> current_board s
        \<longrightarrow> (\<exists>m. board_check w (iteration s) = None
                \<and> \<not> is_game_over w (current_board s)
                \<and> advised (calculate_best_move (is_game_over w)
                             (engine_play w (engine_calls s)) (current_board s)) = Some m
                \<and> success (execute_move (the_bot s) (browser w (iteration s)) m)
                \<and> current_board (state_of (loop_body w s)) = push (current_board s) m))"
  using loop_body_board[of w s] by auto

theorem board_changes_only_on_success_witness:
  "advised (calculate_best_move (is_game_over failing_world)
      (engine_play failing_world (engine_calls (initial_game bot0)))
      (current_board (initial_game bot0))) = Some e2e4
   \<and> \<not> success (execute_move (the_bot (initial_game bot0))
                  (browser failing_world (iteration (initial_game bot0))) e2e4)
   \<and> current_board (state_of (loop_body failing_world (initial_game bot0))) =
       current_board (initial_game bot0)"
proof -
  have 1: "\<not> success (execute_move (the_bot (initial_game bot0))
                  (browser failing_world (iteration (initial_game bot0))) e2e4)"
    by (simp add: browser_failing_world execute_move_dead_browser)
  from board_changes_only_on_success[of failing_world "initial_game bot0"]
  have "current_board (state_of (loop_body failing_world (initial_game bot0))) =
       current_board (initial_game bot0)"
    using advised_failing_world 1 by blast
  with advised_failing_world 1 show ?thesis by blast
qed

lemma legal_game_push: "legal_game legal (push b m) = (legal_game legal b \<and> legal b m)"
  by (auto simp: legal_game_def push_def list_all_iff nth_append)

lemma loop_body_legal:
  assumes "\<forall>k b m. engine_play w k b = PlayResult (Some m) \<longrightarrow> legal b m"
      and "legal_game legal (current_board s)"
    shows "legal_game legal (current_board (state_of (loop_body w s)))"
  using loop_body_board[of w s] assms
  by (auto simp: legal_game_push dest!: advised_from_engine)

lemma while_loop_legal:
  assumes "\<forall>k b m. engine_play w k b = PlayResult (Some m) \<longrightarrow> legal b m"
  shows "legal_game legal (current_board s) \<Longrightarrow> while_loop fuel w mm s = Some (e, s')
         \<Longrightarrow> legal_game legal (current_board s')"
proof (induction fuel arbitrary: s)
  case 0
  then show ?case by (auto split: if_splits)
next
  case (Suc fuel)
  show ?case
  proof (cases "moves_played s < mm")
    case False
    with Suc.prems show ?thesis by simp
  next
    case True
    have step: "legal_game legal (current_board (state_of (loop_body w s)))"
      using loop_body_legal[OF assms Suc.prems(1)] .
    show ?thesis
    proof (cases "loop_body w s")
      case (Continue s1)
      with True Suc.prems(2) have "while_loop fuel w mm s1 = Some (e, s')" by simp
      moreover from step Continue have "legal_game legal (current_board s1)" by simp
      ultimately show ?thesis by (rule Suc.IH[rotated])
    next
      case (Break x s1)
      with True Suc.prems(2) have "s' = s1" by simp
      with step Break show ?thesis by simp
    qed
  qed
qed

lemma fools_mate_run:
  "while_loop 5 fools_mate_world 100 (initial_game bot0) = Some (GameOver BlackWins, fools_mate_final)"
  by code_simp

text \<open>
  C3: let the engine return only moves that are legal in the position it is asked about,
  and let the internal board hold a legal position. Then the board holds a legal position
  after every iteration of the game loop and when the loop ends; and an iteration either
  leaves the board as it was or pushes the move that the engine returned in this
  iteration for exactly this board.
\<close>

theorem engine_moves_keep_board_legal:
  assumes "\<forall>k b m. engine_play w k b = PlayResult (Some m) \<longrightarrow> legal b m"
      and "legal_game legal (current_board s)"
  shows "legal_game legal (current_board (state_of (loop_body w s)))
       \<and> (current_board (state_of (loop_body w s)) = current_board s
          \<or> (\<exists>m. engine_play w (engine_calls s) (current_board s) = PlayResult (Some m)
                \<and> current_board (state_of (loop_body w s)) = push (current_board s) m))
       \<and> (\<forall>fuel max_moves e s'. while_loop fuel w max_moves s = Some (e, s')
             \<longrightarrow> legal_game legal (current_board s'))"
proof -
  have "current_board (state_of (loop_body w s)) = current_board s
          \<or> (\<exists>m. engine_play w (engine_calls s) (current_board s) = PlayResult (Some m)
                \<and> current_board (state_of (loop_body w s)) = push (current_board s) m)"
    using loop_body_board[of w s] by (auto dest: advised_from_engine)
  with loop_body_legal[OF assms] while_loop_legal[OF assms(1) assms(2)]
  show ?thesis by blast
qed

theorem engine_moves_keep_board_legal_witness:
  "legal_game fools_mate_rules (current_board (initial_game bot0))
   \<and> legal_game fools_mate_rules
        (current_board (state_of (loop_body fools_mate_world (initial_game bot0))))
   \<and> legal_game fools_mate_rules (current_board fools_mate_final)
   \<and> \<not> legal_game fools_mate_rules [e2e4]"
proof -
  have 1: "\<forall>k b m. engine_play fools_mate_world k b = PlayResult (Some m)
             \<longrightarrow> fools_mate_rules b m"
    by (simp add: fools_mate_world_def fools_mate_rules_def)
  have 2: "legal_game fools_mate_rules (current_board (initial_game bot0))"
    by (simp add: initial_game_def legal_game_def)
  have 3: "\<not> legal_game fools_mate_rules [e2e4]"
    by (simp add: legal_game_def fools_mate_rules_def fools_mate_def e2e4_def)
  from engine_moves_keep_board_legal[OF 1 2] fools_mate_run 2 3
  show ?thesis by blast
qed

section \<open>The move log\<close>

lemma execute_move_log:
  "log_after (execute_move self d m) =
     (if success (execute_move self d m) \<and> log_moves self
      then move_log self @
           [\<lparr>entry_timestamp = now d, entry_move = uci m,
             entry_from = the (square_name (from_square m)),
             entry_to = the (square_name (to_square m)),
             entry_method = last (tried (execute_move self d m))\<rparr>]
      else move_log self)"
  by (auto simp: execute_move_def try_methods_log simp del: try_methods.simps
      split: option.splits)

lemma execute_move_winner:
  assumes "success (execute_move self d m)"
  shows "last (tried (execute_move self d m)) \<in> {''drag_drop'', ''javascript'', ''keyboard''}"
proof -
  from assms obtain f t where
    "square_name (from_square m) = Some f" "square_name (to_square m) = Some t"
    by (auto simp: execute_move_def split: option.splits)
  with assms try_methods_winner[of "log_moves self" "now d" f t m
     "[(''drag_drop'', execute_move_with_drag_drop d),
       (''javascript'', execute_move_with_javascript d),
       (''keyboard'', execute_move_with_keyboard d)]" "move_log self"]
  show ?thesis by (simp add: execute_move_def)
qed

lemma loop_body_log:
  "\<exists>new applied.
      move_log (the_bot (state_of (loop_body w s))) = move_log (the_bot s) @ new
    \<and> current_board (state_of (loop_body w s)) = current_board s @ applied
    \<and> moves_played (state_of (loop_body w s)) = moves_played s + int (length applied)
    \<and> log_moves (the_bot (state_of (loop_body w s))) = log_moves (the_bot s)
    \<and> (if log_moves (the_bot s)
       then map entry_move new = map uci applied
          \<and> set (map entry_method new) \<subseteq> {''drag_drop'', ''javascript'', ''keyboard''}
       else new = [])"
proof (cases "board_check w (iteration s) = None \<and> \<not> is_game_over w (current_board s)")
  case False
  then have "the_bot (state_of (loop_body w s)) = the_bot s
     \<and> current_board (state_of (loop_body w s)) = current_board s
     \<and> moves_played (state_of (loop_body w s)) = moves_played s"
    by (auto simp: loop_body_def Let_def split: option.splits exn.splits)
  then show ?thesis by simp
next
  case True
  let ?a = "calculate_best_move (is_game_over w) (engine_play w (engine_calls s))
              (current_board s)"
  show ?thesis
  proof (cases "advised ?a")
    case None
    with True have "the_bot (state_of (loop_body w s)) = the_bot s
     \<and> current_board (state_of (loop_body w s)) = current_board s
     \<and> moves_played (state_of (loop_body w s)) = moves_played s"
      by (auto simp: loop_body_def Let_def)
    then show ?thesis by simp
  next
    case (Some m)
    let ?r = "execute_move (the_bot s) (browser w (iteration s)) m"
    show ?thesis
    proof (cases "success ?r")
      case False
      with True Some have "move_log (the_bot (state_of (loop_body w s))) = log_after ?r
       \<and> log_moves (the_bot (state_of (loop_body w s))) = log_moves (the_bot s)
       \<and> current_board (state_of (loop_body w s)) = current_board s
       \<and> moves_played (state_of (loop_body w s)) = moves_played s"
        by (auto simp: loop_body_def Let_def)
      moreover from False have "log_after ?r = move_log (the_bot s)"
        by (simp add: execute_move_log)
      ultimately show ?thesis by simp
    next
      case succ: True
      with True Some have st: "move_log (the_bot (state_of (loop_body w s))) = log_after ?r
       \<and> log_moves (the_bot (state_of (loop_body w s))) = log_moves (the_bot s)
       \<and> current_board (state_of (loop_body w s)) = current_board s @ [m]
       \<and> moves_played (state_of (loop_body w s)) = moves_played s + 1"
        by (auto simp: loop_body_def Let_def push_def)
      show ?thesis
      proof (cases "log_moves (the_bot s)")
        case False
        with succ have "log_after ?r = move_log (the_bot s) @ []"
          by (simp add: execute_move_log)
        with st False show ?thesis
          by (intro exI[of _ "[]"] exI[of _ "[m]"]) simp
      next
        case lg: True
        let ?e = "\<lparr>entry_timestamp = now (browser w (iteration s)), entry_move = uci m,
             entry_from = the (square_name (from_square m)),
             entry_to = the (square_name (to_square m)),
             entry_method = last (tried ?r)\<rparr>"
        from succ lg have "log_after ?r = move_log (the_bot s) @ [?e]"
          by (simp add: execute_move_log)
        with st lg execute_move_winner[OF succ] show ?thesis
          by (intro exI[of _ "[?e]"] exI[of _ "[m]"]) simp
      qed
    qed
  qed
qed

lemma while_loop_log:
  "while_loop fuel w max_moves s = Some (e, s') \<Longrightarrow>
   \<exists>new applied.
      move_log (the_bot s') = move_log (the_bot s) @ new
    \<and> current_board s' = current_board s @ applied
    \<and> moves_played s' = moves_played s + int (length applied)
    \<and> log_moves (the_bot s') = log_moves (the_bot s)
    \<and> (if log_moves (the_bot s)
       then map entry_move new = map uci applied
          \<and> set (map entry_method new) \<subseteq> {''drag_drop'', ''javascript'', ''keyboard''}
       else new = [])"
proof (induction fuel arbitrary: s)
  case 0
  then have "s' = s" by (simp split: if_splits)
  then show ?case by simp
next
  case (Suc fuel)
  show ?case
  proof (cases "moves_played s < max_moves")
    case False
    with Suc.prems have "s' = s" by simp
    then show ?thesis by simp
  next
    case True
    from loop_body_log[of w s] obtain new1 applied1 where
      1: "move_log (the_bot (state_of (loop_body w s))) = move_log (the_bot s) @ new1"
         "current_board (state_of (loop_body w s)) = current_board s @ applied1"
         "moves_played (state_of (loop_body w s)) = moves_played s + int (length applied1)"
         "log_moves (the_bot (state_of (loop_body w s))) = log_moves (the_bot s)"
         "if log_moves (the_bot s)
          then map entry_move new1 = map uci applied1
             \<and> set (map entry_method new1) \<subseteq> {''drag_drop'', ''javascript'', ''keyboard''}
          else new1 = []"
      by blast
    show ?thesis
    proof (cases "loop_body w s")
      case (Break x s1)
      with True Suc.prems have "s' = s1" by simp
      with Break 1 show ?thesis
        by (intro exI[of _ new1] exI[of _ applied1]) simp
    next
      case (Continue s1)
      with True Suc.prems have "while_loop fuel w max_moves s1 = Some (e, s')" by simp
      from Suc.IH[OF this] obtain new2 applied2 where
        2: "move_log (the_bot s') = move_log (the_bot s1) @ new2"
           "current_board s' = current_board s1 @ applied2"
           "moves_played s' = moves_played s1 + int (length applied2)"
           "log_moves (the_bot s') = log_moves (the_bot s1)"
           "if log_moves (the_bot s1)
            then map entry_move new2 = map uci applied2
               \<and> set (map entry_method new2) \<subseteq> {''drag_drop'', ''javascript'', ''keyboard''}
            else new2 = []"
        by blast
      from Continue have s1: "state_of (loop_body w s) = s1" by simp
      show ?thesis
      proof (cases "log_moves (the_bot s)")
        case True
        with 1 2 s1 show ?thesis
          by (intro exI[of _ "new1 @ new2"] exI[of _ "applied1 @ applied2"]) simp
      next
        case False
        with 1 2 s1 show ?thesis
          by (intro exI[of _ "new1 @ new2"] exI[of _ "applied1 @ applied2"]) simp
      qed
    qed
  qed
qed

text \<open>
  C6, as stated, fails: a bot created with \<open>log_moves = False\<close> executes \<open>e2e4\<close> with
  success and appends nothing to its move log, and nothing is persisted for it.
\<close>

theorem success_without_log_entry_counterexample:
  "success (execute_move quiet_bot working_browser e2e4)
   \<and> log_after (execute_move quiet_bot working_browser e2e4) = []
   \<and> cleanup True True
       (quiet_bot\<lparr>move_log := log_after (execute_move quiet_bot working_browser e2e4)\<rparr>) = None"
  by code_simp

text \<open>
  C6, amended: with \<open>log_moves\<close> set, the entries added to the move log during a run of
  the game loop are, in order, the moves pushed onto the internal board during the run,
  one entry for each, and every entry's method is one of \<open>drag_drop\<close>, \<open>javascript\<close>,
  \<open>keyboard\<close>; \<open>cleanup\<close> then hands the whole log to \<open>save_move_log\<close>. One call of
  \<open>execute_move\<close> appends one entry, naming the move and the strategy that reported
  success, exactly when a strategy reports success; with \<open>log_moves\<close> unset nothing is
  appended and nothing is persisted.
\<close>

theorem move_log_round_trip:
  assumes "while_loop fuel w max_moves s = Some (e, s')"
  shows "(\<exists>new applied.
            move_log (the_bot s') = move_log (the_bot s) @ new
          \<and> current_board s' = current_board s @ applied
          \<and> moves_played s' = moves_played s + int (length applied)
          \<and> (if log_moves (the_bot s)
             then map entry_move new = map uci applied
                \<and> set (map entry_method new) \<subseteq> {''drag_drop'', ''javascript'', ''keyboard''}
             else new = []))
       \<and> cleanup True True (the_bot s') =
           (if log_moves (the_bot s) then save_move_log True (move_log (the_bot s')) else None)
       \<and> (if success (execute_move self d m) \<and> log_moves self
          then \<exists>entry. log_after (execute_move self d m) = move_log self @ [entry]
                 \<and> entry_move entry = uci m
                 \<and> entry_method entry = last (tried (execute_move self d m))
          else log_after (execute_move self d m) = move_log self)"
proof -
  from while_loop_log[OF assms] obtain new applied where
    *: "move_log (the_bot s') = move_log (the_bot s) @ new"
       "current_board s' = current_board s @ applied"
       "moves_played s' = moves_played s + int (length applied)"
       "log_moves (the_bot s') = log_moves (the_bot s)"
       "if log_moves (the_bot s)
        then map entry_move new = map uci applied
           \<and> set (map entry_method new) \<subseteq> {''drag_drop'', ''javascript'', ''keyboard''}
        else new = []"
    by blast
  then have a: "\<exists>new applied.
            move_log (the_bot s') = move_log (the_bot s) @ new
          \<and> current_board s' = current_board s @ applied
          \<and> moves_played s' = moves_played s + int (length applied)
          \<and> (if log_moves (the_bot s)
             then map entry_move new = map uci applied
                \<and> set (map entry_method new) \<subseteq> {''drag_drop'', ''javascript'', ''keyboard''}
             else new = [])"
    by blast
  from *(4) have b: "cleanup True True (the_bot s') =
           (if log_moves (the_bot s) then save_move_log True (move_log (the_bot s')) else None)"
    by (simp add: cleanup_def)
  have c: "if success (execute_move self d m) \<and> log_moves self
          then \<exists>entry. log_after (execute_move self d m) = move_log self @ [entry]
                 \<and> entry_move entry = uci m
                 \<and> entry_method entry = last (tried (execute_move self d m))
          else log_after (execute_move self d m) = move_log self"
    by (simp add: execute_move_log)
  from a b c show ?thesis by blast
qed

theorem move_log_round_trip_witness:
  "while_loop 5 fools_mate_world 100 (initial_game bot0) =
     Some (GameOver BlackWins, fools_mate_final)
   \<and> map entry_move (move_log (the_bot fools_mate_final)) = [''f2f3'', ''e7e5'', ''g2g4'', ''d8h4'']
   \<and> map uci (current_board fools_mate_final) = [''f2f3'', ''e7e5'', ''g2g4'', ''d8h4'']
   \<and> (\<exists>new applied.
         move_log (the_bot fools_mate_final) = move_log (the_bot (initial_game bot0)) @ new
       \<and> current_board fools_mate_final = current_board (initial_game bot0) @ applied
       \<and> map entry_move new = map uci applied)
   \<and> cleanup True True (the_bot fools_mate_final) = Some (move_log (the_bot fools_mate_final))"
proof -
  have lg: "log_moves (the_bot (initial_game bot0))"
    by (simp add: initial_game_def bot0_def)
  have 1: "map entry_move (move_log (the_bot fools_mate_final)) = [''f2f3'', ''e7e5'', ''g2g4'', ''d8h4'']"
    by (simp add: fools_mate_final_def)
  have 2: "map uci (current_board fools_mate_final) = [''f2f3'', ''e7e5'', ''g2g4'', ''d8h4'']"
    by code_simp
  have 3: "save_move_log True (move_log (the_bot fools_mate_final)) = Some (move_log (the_bot fools_mate_final))"
    by (simp add: fools_mate_final_def save_move_log_def)
  from move_log_round_trip[OF fools_mate_run, of bot0 working_browser e2e4] lg
  have "(\<exists>new applied.
         move_log (the_bot fools_mate_final) = move_log (the_bot (initial_game bot0)) @ new
       \<and> current_board fools_mate_final = current_board (initial_game bot0) @ applied
       \<and> map entry_move new = map uci applied)
     \<and> cleanup True True (the_bot fools_mate_final) = save_move_log True (move_log (the_bot fools_mate_final))"
    by auto
  with fools_mate_run 1 2 3 show ?thesis by simp
qed

end
